theory Spec2Isabelle
  imports Complex_Main
begin

text \<open>
  The DataCube of py4DSTEM (\<^verbatim>\<open>process/datastructure/datacube.py\<close>): a 4D array with its
  scan and diffraction extents, reshaping, binning, and the metadata scraped from two
  hyperspy trees; and the DiffractionSlice (\<^verbatim>\<open>process/datastructure/diffraction.py\<close>).
  Methods that mutate the object take the state and return the new one; exceptions are
  values.
\<close>

section \<open>Python values and exceptions\<close>

text \<open>
  The values that reach the code as binning factors and as metadata leaves: a Python
  \<^verbatim>\<open>int\<close> (unbounded), a \<^verbatim>\<open>float\<close> (only compared with 1 here, so its value is
  read as a real number) and a \<^verbatim>\<open>str\<close>.
\<close>

datatype pyobj = PyInt int | PyFloat real | PyStr string

text \<open>The exceptions the modelled code can raise.\<close>

datatype error = ValueError | AssertionError | AttributeError | TypeError

text \<open>
  A method that mutates \<^verbatim>\<open>self\<close> returns \<open>Inr\<close> of the new state when it returns
  normally, and \<open>Inl\<close> of the exception together with the state \<^verbatim>\<open>self\<close> is left in when
  it raises.
\<close>

type_synonym 's outcome = "(error \<times> 's) + 's"


section \<open>numpy arrays\<close>

text \<open>
  An \<^verbatim>\<open>ndarray\<close> is its shape and its elements in C (row-major) order. \<open>np_size\<close> is
  \<^verbatim>\<open>a.size\<close>, the product of the shape; an array is well formed when it holds that
  many elements.
\<close>

record 'a ndarray =
  shape :: "nat list"
  elems :: "'a list"

definition np_size :: "'a ndarray \<Rightarrow> nat" where
  "np_size a = prod_list (shape a)"

definition wf_ndarray :: "'a ndarray \<Rightarrow> bool" where
  "wf_ndarray a = (length (elems a) = np_size a)"

text \<open>
  \<^verbatim>\<open>a.reshape(d0, ..., dk)\<close>. A negative entry marks the one dimension numpy infers
  from the size and the other entries (documented for \<^verbatim>\<open>-1\<close>); two of them, a
  size the known entries do not divide, or a product that differs from the size, raise
  \<^verbatim>\<open>ValueError\<close>. The elements keep their C order. Extents are unbounded here: the
  limit numpy puts on them (the byte count of the non-zero extents must fit its index
  type) is not modelled, and no reshape of an array that is not empty can meet it.
\<close>

definition np_reshape :: "int list \<Rightarrow> 'a ndarray \<Rightarrow> error + 'a ndarray" where
  "np_reshape newshape a =
     (let unknown = length (filter (\<lambda>d. d < 0) newshape);
          known = nat (prod_list (filter (\<lambda>d. 0 \<le> d) newshape))
      in if 1 < unknown then Inl ValueError
         else if unknown = 1 then
           (if known = 0 \<or> np_size a mod known \<noteq> 0 then Inl ValueError
            else Inr (a\<lparr>shape := map (\<lambda>d. if d < 0 then np_size a div known else nat d) newshape\<rparr>))
         else if np_size a \<noteq> known then Inl ValueError
         else Inr (a\<lparr>shape := map nat newshape\<rparr>))"

text \<open>
  The number of entries a Python slice \<^verbatim>\<open>:stop\<close> keeps on an axis of length \<open>n\<close>:
  a negative \<open>stop\<close> counts from the end, and \<^verbatim>\<open>-0\<close> is \<^verbatim>\<open>0\<close>.
\<close>

definition py_slice_stop :: "int \<Rightarrow> nat \<Rightarrow> nat" where
  "py_slice_stop stop n = (if stop < 0 then nat (int n + stop) else min (nat stop) n)"

text \<open>
  \<^verbatim>\<open>a[..., :stop, ...]\<close> with the slice on axis \<open>k\<close> and \<^verbatim>\<open>:\<close> on every other axis.
  With \<open>outer\<close> the product of the extents before axis \<open>k\<close> and \<open>inner\<close> the product
  of those after it, the element at \<open>(b, j, i)\<close> is at \<open>(b * n + j) * inner + i\<close>.
\<close>

definition np_slice_stop :: "nat \<Rightarrow> int \<Rightarrow> 'a ndarray \<Rightarrow> 'a ndarray" where
  "np_slice_stop k stop a =
     (let s = shape a;
          outer = prod_list (take k s);
          n = s ! k;
          inner = prod_list (drop (Suc k) s);
          c = py_slice_stop stop n
      in \<lparr>shape = s[k := c],
          elems = concat (map (\<lambda>b. take (c * inner) (drop (b * n * inner) (elems a))) [0..<outer])\<rparr>)"

text \<open>
  The addition of the element type applied along a list, from 0 on: for an element type
  that adds exactly (integers, machine integers that wrap around) this is the sum of the
  list, whatever the order; for a floating-point type every step rounds. numpy does not
  promise the order in which a reduction adds; the model adds in index order.
\<close>

definition np_add_reduce :: "('a::{plus,zero}) list \<Rightarrow> 'a" where
  "np_add_reduce xs = foldl (+) 0 xs"

text \<open>
  \<^verbatim>\<open>a.sum(axis=k)\<close>: the entry at \<open>(b, i)\<close> of the result is the sum over \<open>j\<close> of the
  entries at \<open>(b, j, i)\<close>. \<^verbatim>\<open>a.sum(axis=(k1, k2))\<close> with \<open>k1 < k2\<close> reduces axis
  \<open>k2\<close> and then axis \<open>k1\<close>.
\<close>

definition np_sum_axis :: "nat \<Rightarrow> ('a::{plus,zero}) ndarray \<Rightarrow> 'a ndarray" where
  "np_sum_axis k a =
     (let s = shape a;
          outer = prod_list (take k s);
          n = s ! k;
          inner = prod_list (drop (Suc k) s)
      in \<lparr>shape = take k s @ drop (Suc k) s,
          elems = concat (map (\<lambda>b. map (\<lambda>i.
                    np_add_reduce (map (\<lambda>j. elems a ! ((b * n + j) * inner + i)) [0..<n]))
                    [0..<inner]) [0..<outer])\<rparr>)"

definition np_sum_axes :: "nat list \<Rightarrow> ('a::{plus,zero}) ndarray \<Rightarrow> 'a ndarray" where
  "np_sum_axes axes a = foldr np_sum_axis axes a"


section \<open>Floating-point samples\<close>

text \<open>
  A finite float64 sample whose value is a whole number, as a detector count stored in a
  float64 array is. A float64 keeps 53 significant bits: \<open>f64_shift n\<close> is the number
  of low bits a whole number of magnitude \<open>n\<close> has no room for, a whole number is
  representable when those bits are 0, and \<open>f64_round\<close> rounds a whole number to the
  nearest representable one, a tie going to the even significand. The addition of two
  samples is the rounded exact sum, as IEEE 754 defines it. Fractions, infinities (sums
  of magnitude \<open>2 ^ 1024\<close> and more) and NaN are not represented.
\<close>

datatype float64 = Whole int

fun f64_value :: "float64 \<Rightarrow> int" where
  "f64_value (Whole n) = n"

function f64_shift :: "nat \<Rightarrow> nat" where
  "f64_shift n = (if n < 2 ^ 53 then 0 else Suc (f64_shift (n div 2)))"
  by pat_completeness auto
termination
  by (relation "measure id") auto

declare f64_shift.simps [simp del]

definition f64_representable :: "int \<Rightarrow> bool" where
  "f64_representable n = (n mod 2 ^ f64_shift (nat \<bar>n\<bar>) = 0)"

definition f64_round :: "int \<Rightarrow> int" where
  "f64_round s =
     (let u = 2 ^ f64_shift (nat \<bar>s\<bar>); q = s div u; r = s mod u
      in if 2 * r < u then q * u
         else if u < 2 * r then (q + 1) * u
         else if even q then q * u else (q + 1) * u)"

instantiation float64 :: "{plus, zero}"
begin

definition plus_float64 :: "float64 \<Rightarrow> float64 \<Rightarrow> float64" where
  "plus_float64 a b = Whole (f64_round (f64_value a + f64_value b))"

definition zero_float64 :: float64 where
  "zero_float64 = Whole 0"

instance ..

end


section \<open>The metadata tree\<close>

text \<open>
  A hyperspy \<^verbatim>\<open>DictionaryTreeBrowser\<close>: its children in the order \<^verbatim>\<open>keys()\<close> yields
  them, each a leaf value or again a tree (\<^verbatim>\<open>istree_hs\<close> tells them apart). The tree
  handed to the code may be \<^verbatim>\<open>None\<close>.
\<close>

datatype hs_node = Leaf pyobj | Tree "(string \<times> hs_node) list"

type_synonym hs_tree = "(string \<times> hs_node) list"

fun istree_hs :: "hs_node \<Rightarrow> bool" where
  "istree_hs (Leaf v) = False"
| "istree_hs (Tree t) = True"

text \<open>
  \<^verbatim>\<open>search_hs_tree\<close>; \<open>search_hs_keys\<close> is its \<^verbatim>\<open>for hs_key in hs_tree.keys()\<close> loop
  over the children not yet visited, with one equation for a child that
  \<^verbatim>\<open>istree_hs\<close> finds to be a leaf and one for a child it finds to be a tree.
\<close>

function search_hs_tree :: "string \<Rightarrow> hs_tree option \<Rightarrow> bool \<times> pyobj"
  and search_hs_keys :: "string \<Rightarrow> hs_tree \<Rightarrow> bool \<times> pyobj" where
  "search_hs_tree key None = (False, PyInt (- 1))"
| "search_hs_tree key (Some hs_tree) = search_hs_keys key hs_tree"
| "search_hs_keys key [] = (False, PyInt (- 1))"
| "search_hs_keys key ((hs_key, Leaf v) # rest) =
     (if key = hs_key then (True, v) else search_hs_keys key rest)"
| "search_hs_keys key ((hs_key, Tree sub) # rest) =
     (case search_hs_tree key (Some sub) of
        (found, val) \<Rightarrow> if found then (found, val) else search_hs_keys key rest)"
  by pat_completeness auto
termination
  by (relation "measure (\<lambda>x. case x of
        Inl (key, None) \<Rightarrow> 0
      | Inl (key, Some t) \<Rightarrow> Suc (size (Tree t))
      | Inr (key, t) \<Rightarrow> size (Tree t))") auto


section \<open>The metadata record\<close>

text \<open>
  The search dictionaries of \<^verbatim>\<open>setup_metadata_search_dicts\<close>, in declaration order:
  each field with the keys to look for in the original metadata.
\<close>

type_synonym search_dict = "(string \<times> string list) list"

definition original_to_microscope_search_dict :: search_dict where
  "original_to_microscope_search_dict =
     [(''accelerating_voltage_kV'', [''beam_energy'']),
      (''camera_length_mm'', [''camera_length'']),
      (''C2_aperture'', ['''']),
      (''convergence_semiangle_mrad'', ['''']),
      (''spot_size'', ['''']),
      (''scan_rotation_degrees'', ['''']),
      (''dwell_time_ms'', ['''']),
      (''scan_size_Ny'', ['''']),
      (''scan_size_Nx'', ['''']),
      (''R_pix_size'', ['''']),
      (''R_units'', ['''']),
      (''K_pix_size'', ['''']),
      (''K_units'', ['''']),
      (''probe_FWHM_nm'', [''''])]"

definition original_to_sample_search_dict :: search_dict where
  "original_to_sample_search_dict =
     [(''sample_metadata_1'', ['''']),
      (''sample_metadata_2'', ['''']),
      (''sample_metadata_3'', [''''])]"

definition original_to_user_search_dict :: search_dict where
  "original_to_user_search_dict =
     [(''user_metadata_1'', ['''']),
      (''user_metadata_2'', ['''']),
      (''user_metadata_3'', [''''])]"

definition original_to_processing_search_dict :: search_dict where
  "original_to_processing_search_dict =
     [(''original_filename'', [''original_filename''])]"

definition original_to_calibration_search_dict :: search_dict where
  "original_to_calibration_search_dict =
     [(''calibration_metadata_1'', ['''']),
      (''calibration_metadata_2'', ['''']),
      (''calibration_metadata_3'', [''''])]"

definition original_to_comments_search_dict :: search_dict where
  "original_to_comments_search_dict =
     [(''comments_metadata_1'', ['''']),
      (''comments_metadata_2'', ['''']),
      (''comments_metadata_3'', [''''])]"

text \<open>
  \<^verbatim>\<open>get_metadata_from_original_metadata\<close>. \<open>search_keys\<close> is the inner loop over the
  keys of one field, entered after \<^verbatim>\<open>metadata_dict[attr]=""\<close>: the first key found
  gives the value and ends the loop, and with no key found the value is as it was.
\<close>

type_synonym metadata_dict = "string \<rightharpoonup> pyobj"

fun search_keys :: "string list \<Rightarrow> hs_tree option \<Rightarrow> pyobj \<Rightarrow> pyobj" where
  "search_keys [] hs_tree current = current"
| "search_keys (key # keys) hs_tree current =
     (case search_hs_tree key hs_tree of
        (found, val) \<Rightarrow> if found then val else search_keys keys hs_tree current)"

fun get_metadata_from_original_metadata ::
  "hs_tree option \<Rightarrow> search_dict \<Rightarrow> metadata_dict \<Rightarrow> metadata_dict" where
  "get_metadata_from_original_metadata hs_tree [] metadata_dict = metadata_dict"
| "get_metadata_from_original_metadata hs_tree ((attr, keys) # items) metadata_dict =
     get_metadata_from_original_metadata hs_tree items
       (metadata_dict(attr \<mapsto> search_keys keys hs_tree (PyStr '''')))"

text \<open>
  The \<^verbatim>\<open>metadata\<close> attribute of a DataCube: the two original trees and the six
  dictionaries.
\<close>

record MetadataCollection =
  original_shortlist :: "hs_tree option"
  original_all :: "hs_tree option"
  microscope :: metadata_dict
  sample :: metadata_dict
  user :: metadata_dict
  processing :: metadata_dict
  calibration :: metadata_dict
  comments :: metadata_dict

text \<open>
  \<^verbatim>\<open>setup_metadata\<close>: six empty dictionaries, filled from the complete tree and then
  from the shortlist.
\<close>

definition setup_metadata :: "hs_tree option \<Rightarrow> hs_tree option \<Rightarrow> MetadataCollection" where
  "setup_metadata original_metadata_shortlist original_metadata_all =
     (let m = \<lparr>original_shortlist = original_metadata_shortlist,
                original_all = original_metadata_all,
                microscope = Map.empty, sample = Map.empty, user = Map.empty,
                processing = Map.empty, calibration = Map.empty, comments = Map.empty\<rparr>;
          m = m\<lparr>microscope := get_metadata_from_original_metadata original_metadata_all
                  original_to_microscope_search_dict (microscope m)\<rparr>;
          m = m\<lparr>sample := get_metadata_from_original_metadata original_metadata_all
                  original_to_sample_search_dict (sample m)\<rparr>;
          m = m\<lparr>user := get_metadata_from_original_metadata original_metadata_all
                  original_to_user_search_dict (user m)\<rparr>;
          m = m\<lparr>processing := get_metadata_from_original_metadata original_metadata_all
                  original_to_processing_search_dict (processing m)\<rparr>;
          m = m\<lparr>calibration := get_metadata_from_original_metadata original_metadata_all
                  original_to_calibration_search_dict (calibration m)\<rparr>;
          m = m\<lparr>comments := get_metadata_from_original_metadata original_metadata_all
                  original_to_comments_search_dict (comments m)\<rparr>;
          m = m\<lparr>microscope := get_metadata_from_original_metadata original_metadata_shortlist
                  original_to_microscope_search_dict (microscope m)\<rparr>;
          m = m\<lparr>sample := get_metadata_from_original_metadata original_metadata_shortlist
                  original_to_sample_search_dict (sample m)\<rparr>;
          m = m\<lparr>user := get_metadata_from_original_metadata original_metadata_shortlist
                  original_to_user_search_dict (user m)\<rparr>;
          m = m\<lparr>processing := get_metadata_from_original_metadata original_metadata_shortlist
                  original_to_processing_search_dict (processing m)\<rparr>;
          m = m\<lparr>calibration := get_metadata_from_original_metadata original_metadata_shortlist
                  original_to_calibration_search_dict (calibration m)\<rparr>;
          m = m\<lparr>comments := get_metadata_from_original_metadata original_metadata_shortlist
                  original_to_comments_search_dict (comments m)\<rparr>
      in m)"


section \<open>The DataCube\<close>

text \<open>
  The attributes of a DataCube. \<open>metadata\<close> is \<open>None\<close> until \<^verbatim>\<open>setup_metadata\<close>
  has assigned it.
\<close>

record 'a DataCube =
  filename :: "string option"
  data4D :: "'a ndarray"
  R_Ny :: int
  R_Nx :: int
  Q_Ny :: int
  Q_Nx :: int
  R_N :: int
  metadata :: "MetadataCollection option"

text \<open>
  \<^verbatim>\<open>set_scan_shape\<close>: both reshapes happen before \<^verbatim>\<open>data4D\<close> is assigned, and
  \<^verbatim>\<open>except ValueError: pass\<close> swallows a \<^verbatim>\<open>ValueError\<close> of either.
\<close>

definition set_scan_shape :: "'a DataCube \<Rightarrow> int \<Rightarrow> int \<Rightarrow> 'a DataCube outcome" where
  "set_scan_shape self new_R_Ny new_R_Nx =
     (case np_reshape [R_N self, Q_Ny self, Q_Nx self] (data4D self) of
        Inl e \<Rightarrow> if e = ValueError then Inr self else Inl (e, self)
      | Inr a3 \<Rightarrow>
          (case np_reshape [new_R_Ny, new_R_Nx, Q_Ny self, Q_Nx self] a3 of
             Inl e \<Rightarrow> if e = ValueError then Inr self else Inl (e, self)
           | Inr a4 \<Rightarrow> Inr (self\<lparr>data4D := a4, R_Ny := new_R_Ny, R_Nx := new_R_Nx\<rparr>)))"

text \<open>\<^verbatim>\<open>DataCube.__init__\<close>.\<close>

definition DataCube_init ::
  "'a ndarray \<Rightarrow> int \<Rightarrow> int \<Rightarrow> int \<Rightarrow> int \<Rightarrow> hs_tree option \<Rightarrow> hs_tree option \<Rightarrow> string option
     \<Rightarrow> 'a DataCube outcome" where
  "DataCube_init data r_ny r_nx q_ny q_nx original_metadata_shortlist original_metadata_all fname =
     (let self = \<lparr>filename = fname, data4D = data, R_Ny = r_ny, R_Nx = r_nx,
                   Q_Ny = q_ny, Q_Nx = q_nx, R_N = r_ny * r_nx, metadata = None\<rparr>
      in case set_scan_shape self r_ny r_nx of
           Inl e \<Rightarrow> Inl e
         | Inr self \<Rightarrow>
             Inr (self\<lparr>metadata :=
                    Some (setup_metadata original_metadata_shortlist original_metadata_all)\<rparr>))"

text \<open>
  \<^verbatim>\<open>bin_q<=1\<close> for the values a factor can be; comparing a \<^verbatim>\<open>str\<close> with an
  \<^verbatim>\<open>int\<close> raises \<^verbatim>\<open>TypeError\<close>.
\<close>

fun py_le_one :: "pyobj \<Rightarrow> error + bool" where
  "py_le_one (PyInt i) = Inr (i \<le> 1)"
| "py_le_one (PyFloat r) = Inr (r \<le> 1)"
| "py_le_one (PyStr s) = Inl TypeError"

text \<open>
  \<^verbatim>\<open>bin_diffraction\<close>. The \<^verbatim>\<open>assert type(bin_q) is int\<close> comes first in the
  \<^verbatim>\<open>else\<close> branch; unpacking a shape that has not four entries raises
  \<^verbatim>\<open>ValueError\<close>; \<^verbatim>\<open>int(Q_Ny/bin_q)\<close>, a float division that is then truncated, is
  the integer quotient for every extent below \<open>2 ^ 53\<close> (beyond that the float
  quotient rounds, which the model leaves out). The truncated array is assigned to
  \<^verbatim>\<open>data4D\<close> before the reshape, so an exception of the reshape leaves it there.
\<close>

definition bin_diffraction ::
  "('a::{plus,zero}) DataCube \<Rightarrow> pyobj \<Rightarrow> 'a DataCube outcome" where
  "bin_diffraction self bin_q =
     (case py_le_one bin_q of
        Inl e \<Rightarrow> Inl (e, self)
      | Inr True \<Rightarrow> Inr self
      | Inr False \<Rightarrow>
          (case bin_q of
             PyInt q \<Rightarrow>
               (case shape (data4D self) of
                  [R_Ny', R_Nx', Q_Ny', Q_Nx'] \<Rightarrow>
                    (let f = nat q;
                         self1 =
                           (if Q_Ny' mod f = 0 \<and> Q_Nx' mod f = 0 then self
                            else self\<lparr>data4D :=
                                   np_slice_stop 3 (- int (Q_Nx' mod f))
                                     (np_slice_stop 2 (- int (Q_Ny' mod f)) (data4D self))\<rparr>)
                     in case np_reshape
                               [int R_Ny', int R_Nx', int (Q_Ny' div f), q, int (Q_Nx' div f), q]
                               (data4D self1) of
                          Inl e \<Rightarrow> Inl (e, self1)
                        | Inr a6 \<Rightarrow> Inr (self1\<lparr>data4D := np_sum_axes [3, 5] a6\<rparr>))
                | _ \<Rightarrow> Inl (ValueError, self))
           | _ \<Rightarrow> Inl (AssertionError, self)))"

text \<open>\<^verbatim>\<open>bin_real\<close>, the same on the two real-space axes.\<close>

definition bin_real ::
  "('a::{plus,zero}) DataCube \<Rightarrow> pyobj \<Rightarrow> 'a DataCube outcome" where
  "bin_real self bin_r =
     (case py_le_one bin_r of
        Inl e \<Rightarrow> Inl (e, self)
      | Inr True \<Rightarrow> Inr self
      | Inr False \<Rightarrow>
          (case bin_r of
             PyInt r \<Rightarrow>
               (case shape (data4D self) of
                  [R_Ny', R_Nx', Q_Ny', Q_Nx'] \<Rightarrow>
                    (let f = nat r;
                         self1 =
                           (if R_Ny' mod f = 0 \<and> R_Nx' mod f = 0 then self
                            else self\<lparr>data4D :=
                                   np_slice_stop 1 (- int (R_Nx' mod f))
                                     (np_slice_stop 0 (- int (R_Ny' mod f)) (data4D self))\<rparr>)
                     in case np_reshape
                               [int (R_Ny' div f), r, int (R_Nx' div f), r, int Q_Ny', int Q_Nx']
                               (data4D self1) of
                          Inl e \<Rightarrow> Inl (e, self1)
                        | Inr a6 \<Rightarrow> Inr (self1\<lparr>data4D := np_sum_axes [1, 3] a6\<rparr>))
                | _ \<Rightarrow> Inl (ValueError, self))
           | _ \<Rightarrow> Inl (AssertionError, self)))"


section \<open>The DiffractionSlice\<close>

text \<open>
  The attributes of a DiffractionSlice; one that has not been assigned is \<open>None\<close>, and
  reading it raises \<^verbatim>\<open>AttributeError\<close>.
\<close>

record 'a DiffractionSlice =
  parentDataCube :: "'a DataCube option"
  slice_Q_Ny :: "int option"
  slice_Q_Nx :: "int option"
  data2D :: "'a ndarray option"

definition getattr :: "'v option \<Rightarrow> error + 'v" where
  "getattr attr = (case attr of None \<Rightarrow> Inl AttributeError | Some v \<Rightarrow> Inr v)"

text \<open>
  \<^verbatim>\<open>DiffractionSlice.__init__\<close>. The right-hand side of the second assignment,
  \<^verbatim>\<open>self.parentDataCube.Q_Ny, self.Q_Nx\<close>, is evaluated before either target is
  assigned.
\<close>

definition DiffractionSlice_init ::
  "'a DataCube \<Rightarrow> 'a ndarray \<Rightarrow> error + 'a DiffractionSlice" where
  "DiffractionSlice_init parent data =
     (let self = \<lparr>parentDataCube = None, slice_Q_Ny = None, slice_Q_Nx = None, data2D = None\<rparr>;
          self = self\<lparr>parentDataCube := Some parent\<rparr>
      in case getattr (parentDataCube self) of
           Inl e \<Rightarrow> Inl e
         | Inr p \<Rightarrow>
             (case getattr (slice_Q_Nx self) of
                Inl e \<Rightarrow> Inl e
              | Inr q_nx \<Rightarrow>
                  (let self = self\<lparr>slice_Q_Ny := Some (Q_Ny p), slice_Q_Nx := Some q_nx\<rparr>
                   in if map int (shape data) = [Q_Ny p, q_nx]
                      then Inr (self\<lparr>data2D := Some data\<rparr>)
                      else Inl AssertionError)))"


section \<open>The search as the specification words it\<close>

text \<open>
  The specification describes the search by its visiting order: the children in their
  natural order, a subtree entered before the siblings that follow it, and the first
  leaf whose key is the target wins. \<open>visit_order\<close> lists the leaves of a tree in
  that order and \<open>spec_search\<close> takes the first one with the target key; both follow
  the specification's words, not the code.
\<close>

function visit_order :: "hs_tree \<Rightarrow> (string \<times> pyobj) list" where
  "visit_order [] = []"
| "visit_order ((k, Leaf v) # rest) = (k, v) # visit_order rest"
| "visit_order ((k, Tree sub) # rest) = visit_order sub @ visit_order rest"
  by pat_completeness auto
termination
  by (relation "measure (\<lambda>t. size (Tree t))") auto

definition spec_search :: "string \<Rightarrow> hs_tree option \<Rightarrow> bool \<times> pyobj" where
  "spec_search target_key tree =
     (case tree of
        None \<Rightarrow> (False, PyInt (- 1))
      | Some t \<Rightarrow>
          (case find (\<lambda>leaf. fst leaf = target_key) (visit_order t) of
             None \<Rightarrow> (False, PyInt (- 1))
           | Some leaf \<Rightarrow> (True, snd leaf)))"


section \<open>Example data\<close>

text \<open>
  The DataCube the constructor builds from an integer array of shape \<open>s\<close> (four
  extents) with elements \<open>es\<close>, when the declared extents are those of the array and no
  metadata tree is given.
\<close>

definition example_cube :: "nat list \<Rightarrow> int list \<Rightarrow> int DataCube" where
  "example_cube s es =
     \<lparr>filename = None, data4D = \<lparr>shape = s, elems = es\<rparr>,
      R_Ny = int (s ! 0), R_Nx = int (s ! 1), Q_Ny = int (s ! 2), Q_Nx = int (s ! 3),
      R_N = int (s ! 0) * int (s ! 1), metadata = Some (setup_metadata None None)\<rparr>"

text \<open>The same for an array of float64 samples.\<close>

definition float_cube :: "nat list \<Rightarrow> float64 list \<Rightarrow> float64 DataCube" where
  "float_cube s es =
     \<lparr>filename = None, data4D = \<lparr>shape = s, elems = es\<rparr>,
      R_Ny = int (s ! 0), R_Nx = int (s ! 1), Q_Ny = int (s ! 2), Q_Nx = int (s ! 3),
      R_N = int (s ! 0) * int (s ! 1), metadata = Some (setup_metadata None None)\<rparr>"

text \<open>A metadata tree with one leaf, \<^verbatim>\<open>beam_energy\<close>, holding \<open>v\<close>.\<close>

definition beam_tree :: "int \<Rightarrow> hs_tree" where
  "beam_tree v = [(''beam_energy'', Leaf (PyInt v))]"


section \<open>Reshaping\<close>

lemma prod_list_filter_nonneg: "0 \<le> prod_list (filter (\<lambda>d. 0 \<le> d) (s::int list))"
  by (induction s) simp_all

lemma prod_list_inferred:
  "prod_list (map (\<lambda>d. if d < 0 then c else nat d) s) =
     c ^ length (filter (\<lambda>d. d < 0) s) * nat (prod_list (filter (\<lambda>d. 0 \<le> d) s))"
  by (induction s) (simp_all add: nat_mult_distrib prod_list_filter_nonneg)

lemma prod_list_map_nat:
  "filter (\<lambda>d. d < 0) s = [] \<Longrightarrow> prod_list (map nat s) = nat (prod_list (s::int list))"
  by (induction s) (auto simp: nat_mult_distrib split: if_splits)

text \<open>A reshape raises nothing but \<^verbatim>\<open>ValueError\<close>, and keeps the elements and the size.\<close>

lemma np_reshape_error: "np_reshape s a = Inl e \<Longrightarrow> e = ValueError"
  by (auto simp: np_reshape_def Let_def split: if_splits)

lemma np_reshape_elems: "np_reshape s a = Inr a' \<Longrightarrow> elems a' = elems a"
  by (auto simp: np_reshape_def Let_def split: if_splits)

lemma np_reshape_size:
  assumes "np_reshape s a = Inr a'"
  shows "np_size a' = np_size a"
proof -
  let ?u = "length (filter (\<lambda>d. d < 0) s)"
  let ?k = "nat (prod_list (filter (\<lambda>d. 0 \<le> d) s))"
  have u: "?u \<le> 1"
    using assms by (auto simp: np_reshape_def Let_def split: if_splits)
  show ?thesis
  proof (cases "?u = 1")
    case True
    with assms have k: "np_size a mod ?k = 0"
      and a': "shape a' = map (\<lambda>d. if d < 0 then np_size a div ?k else nat d) s"
      by (auto simp: np_reshape_def Let_def split: if_splits)
    have "np_size a' = (np_size a div ?k) ^ ?u * ?k"
      unfolding np_size_def[of a'] a' by (rule prod_list_inferred)
    with True k show ?thesis by (simp add: mod_eq_0_iff_dvd)
  next
    case False
    with u have "?u = 0" by linarith
    then have z: "filter (\<lambda>d. d < 0) s = []" by simp
    have "filter (\<lambda>d. 0 \<le> d) s = s"
      using z by (induction s) (auto split: if_splits)
    with assms z have "np_size a = nat (prod_list s)" and "shape a' = map nat s"
      by (auto simp: np_reshape_def Let_def split: if_splits)
    with z show ?thesis by (simp add: np_size_def prod_list_map_nat)
  qed
qed

text \<open>With no negative entry the reshape succeeds exactly when the product is the size.\<close>

lemma np_reshape_nonneg:
  assumes "\<forall>d\<in>set s. 0 \<le> d"
  shows "np_reshape s a =
     (if np_size a = nat (prod_list s) then Inr (a\<lparr>shape := map nat s\<rparr>) else Inl ValueError)"
proof -
  have "filter (\<lambda>d. d < 0) s = []" using assms by (induction s) auto
  moreover have "filter (\<lambda>d. 0 \<le> d) s = s" using assms by (induction s) auto
  ultimately show ?thesis by (simp add: np_reshape_def)
qed

text \<open>The outcome of a reshape depends on the array only through its size.\<close>

lemma np_reshape_same_size:
  "np_reshape s a = Inr a' \<Longrightarrow> np_size b = np_size a \<Longrightarrow>
     np_reshape s b = Inr (b\<lparr>shape := shape a'\<rparr>)"
  by (auto simp: np_reshape_def Let_def split: if_splits)

lemma set_scan_shape_cases:
  "set_scan_shape dc a b = Inr dc \<and>
     (\<exists>e. np_reshape [R_N dc, Q_Ny dc, Q_Nx dc] (data4D dc) = Inl e \<or>
          (\<exists>a3. np_reshape [R_N dc, Q_Ny dc, Q_Nx dc] (data4D dc) = Inr a3 \<and>
                np_reshape [a, b, Q_Ny dc, Q_Nx dc] a3 = Inl e)) \<or>
   (\<exists>a3 a4. np_reshape [R_N dc, Q_Ny dc, Q_Nx dc] (data4D dc) = Inr a3 \<and>
       np_reshape [a, b, Q_Ny dc, Q_Nx dc] a3 = Inr a4 \<and>
       set_scan_shape dc a b = Inr (dc\<lparr>data4D := a4, R_Ny := a, R_Nx := b\<rparr>))"
  by (auto simp: set_scan_shape_def dest: np_reshape_error split: sum.splits)

text \<open>
  \<^verbatim>\<open>set_scan_shape\<close> always returns; the state it returns differs from the old one at
  most in the array's shape and the two scan extents.
\<close>

lemma set_scan_shape_returns:
  "\<exists>dc'. set_scan_shape dc a b = Inr dc' \<and> elems (data4D dc') = elems (data4D dc) \<and>
     np_size (data4D dc') = np_size (data4D dc) \<and>
     dc' = dc\<lparr>data4D := data4D dc', R_Ny := R_Ny dc', R_Nx := R_Nx dc'\<rparr>"
proof -
  consider (same) "set_scan_shape dc a b = Inr dc"
    | (new) a3 a4 where "np_reshape [R_N dc, Q_Ny dc, Q_Nx dc] (data4D dc) = Inr a3"
        "np_reshape [a, b, Q_Ny dc, Q_Nx dc] a3 = Inr a4"
        "set_scan_shape dc a b = Inr (dc\<lparr>data4D := a4, R_Ny := a, R_Nx := b\<rparr>)"
    using set_scan_shape_cases [of dc a b] by blast
  then show ?thesis
  proof cases
    case same
    then show ?thesis by simp
  next
    case new
    have "elems a4 = elems (data4D dc)"
      using np_reshape_elems [OF new(1)] np_reshape_elems [OF new(2)] by simp
    moreover have "np_size a4 = np_size (data4D dc)"
      using np_reshape_size [OF new(1)] np_reshape_size [OF new(2)] by simp
    ultimately show ?thesis using new(3) by simp
  qed
qed

text \<open>
  From a state that differs from \<open>dc\<close> only by a reshape, asking for the scan shape of
  \<open>dc\<close> gives \<open>dc\<close> back, provided the shape of \<open>dc\<close> is its four extent fields.
\<close>

lemma set_scan_shape_restore:
  assumes inv: "map int (shape (data4D dc)) = [R_Ny dc, R_Nx dc, Q_Ny dc, Q_Nx dc]"
      and dc1: "dc1 = dc\<lparr>data4D := d1, R_Ny := y1, R_Nx := x1\<rparr>"
      and el: "elems d1 = elems (data4D dc)" and sz: "np_size d1 = np_size (data4D dc)"
      and ok: "np_reshape [R_N dc, Q_Ny dc, Q_Nx dc] d1 = Inr a3"
  shows "set_scan_shape dc1 (R_Ny dc) (R_Nx dc) = Inr dc"
proof -
  from inv have "\<exists>ry rx qy qx. shape (data4D dc) = [ry, rx, qy, qx] \<and>
      R_Ny dc = int ry \<and> R_Nx dc = int rx \<and> Q_Ny dc = int qy \<and> Q_Nx dc = int qx"
    by (auto simp: map_eq_Cons_conv)
  then obtain ry rx qy qx where sh: "shape (data4D dc) = [ry, rx, qy, qx]"
    and f: "R_Ny dc = int ry" "R_Nx dc = int rx" "Q_Ny dc = int qy" "Q_Nx dc = int qx"
    by blast
  have "np_size a3 = np_size d1" using ok by (rule np_reshape_size)
  then have "np_size a3 = nat (prod_list [R_Ny dc, R_Nx dc, Q_Ny dc, Q_Nx dc])"
    using sz sh f by (simp add: np_size_def flip: of_nat_mult)
  then have "np_reshape [R_Ny dc, R_Nx dc, Q_Ny dc, Q_Nx dc] a3
      = Inr (a3\<lparr>shape := shape (data4D dc)\<rparr>)"
    using sh f by (simp add: np_reshape_nonneg)
  moreover have "a3\<lparr>shape := shape (data4D dc)\<rparr> = data4D dc"
    using np_reshape_elems [OF ok] el by simp
  ultimately show ?thesis using ok dc1 by (simp add: set_scan_shape_def)
qed


text \<open>
  In a DataCube whose array has the shape of its extent fields and whose \<^verbatim>\<open>R_N\<close> is
  the product of the scan extents, a request with non-negative extents and the right
  product is carried out: the array gets the requested shape.
\<close>

lemma set_scan_shape_valid:
  assumes inv: "map int (shape (data4D dc)) = [R_Ny dc, R_Nx dc, Q_Ny dc, Q_Nx dc]"
      and rn: "R_N dc = R_Ny dc * R_Nx dc"
      and nn: "0 \<le> a" "0 \<le> b"
      and valid: "a * b * Q_Ny dc * Q_Nx dc = int (np_size (data4D dc))"
  shows "set_scan_shape dc a b =
           Inr (dc\<lparr>data4D := (data4D dc)\<lparr>shape := [nat a, nat b, nat (Q_Ny dc), nat (Q_Nx dc)]\<rparr>,
                   R_Ny := a, R_Nx := b\<rparr>)"
proof -
  from inv have "\<exists>ry rx qy qx. shape (data4D dc) = [ry, rx, qy, qx] \<and>
      R_Ny dc = int ry \<and> R_Nx dc = int rx \<and> Q_Ny dc = int qy \<and> Q_Nx dc = int qx"
    by (auto simp: map_eq_Cons_conv)
  then obtain ry rx qy qx where sh: "shape (data4D dc) = [ry, rx, qy, qx]"
    and f: "R_Ny dc = int ry" "R_Nx dc = int rx" "Q_Ny dc = int qy" "Q_Nx dc = int qx"
    by blast
  let ?a3 = "(data4D dc)\<lparr>shape := map nat [R_N dc, Q_Ny dc, Q_Nx dc]\<rparr>"
  have "np_size (data4D dc) = nat (prod_list [R_N dc, Q_Ny dc, Q_Nx dc])"
    using sh f rn by (simp add: np_size_def mult.assoc flip: of_nat_mult)
  then have r1: "np_reshape [R_N dc, Q_Ny dc, Q_Nx dc] (data4D dc) = Inr ?a3"
    using f rn by (simp add: np_reshape_nonneg)
  then have "np_size ?a3 = np_size (data4D dc)" by (rule np_reshape_size)
  also have "\<dots> = nat (prod_list [a, b, Q_Ny dc, Q_Nx dc])"
    using valid by (simp add: mult.assoc)
  finally have r2: "np_reshape [a, b, Q_Ny dc, Q_Nx dc] ?a3
      = Inr (?a3\<lparr>shape := map nat [a, b, Q_Ny dc, Q_Nx dc]\<rparr>)"
    using nn f by (simp add: np_reshape_nonneg)
  show ?thesis using r1 r2 by (simp add: set_scan_shape_def)
qed

section \<open>Summing along an axis\<close>

lemma sum_row_block:
  fixes g :: "nat \<Rightarrow> 'a::comm_monoid_add"
  shows "(\<Sum>i = 0..<inner. \<Sum>j = 0..<n. g ((c + j) * inner + i))
           = sum g {c * inner..<(c + n) * inner}"
proof (induction n)
  case 0
  show ?case by simp
next
  case (Suc n)
  have last_row: "(\<Sum>i = 0..<inner. g ((c + n) * inner + i))
      = sum g {(c + n) * inner..<(c + Suc n) * inner}"
    using sum.shift_bounds_nat_ivl [of g 0 "(c + n) * inner" inner]
    by (simp add: add.commute)
  have "(\<Sum>i = 0..<inner. \<Sum>j = 0..<Suc n. g ((c + j) * inner + i))
      = (\<Sum>i = 0..<inner. \<Sum>j = 0..<n. g ((c + j) * inner + i))
        + (\<Sum>i = 0..<inner. g ((c + n) * inner + i))"
    by (simp add: sum.distrib)
  also have "\<dots> = sum g {c * inner..<(c + n) * inner}
        + sum g {(c + n) * inner..<(c + Suc n) * inner}"
    by (simp only: Suc.IH last_row)
  also have "\<dots> = sum g {c * inner..<(c + Suc n) * inner}"
    by (rule sum.atLeastLessThan_concat) simp_all
  finally show ?case .
qed

lemma sum_blocks:
  fixes g :: "nat \<Rightarrow> 'a::comm_monoid_add"
  shows "(\<Sum>b = 0..<outer. sum g {b * m..<(b + 1) * m}) = sum g {0..<outer * m}"
proof (induction outer)
  case 0
  show ?case by simp
next
  case (Suc outer)
  have "sum g {0..<outer * m} + sum g {outer * m..<(outer + 1) * m}
      = sum g {0..<(outer + 1) * m}"
    by (rule sum.atLeastLessThan_concat) simp_all
  with Suc.IH show ?case by simp
qed

lemma np_add_reduce_from:
  fixes xs :: "('a::monoid_add) list"
  shows "foldl (+) a xs = a + sum_list xs"
  by (induction xs arbitrary: a) (simp_all add: add.assoc)

text \<open>For an element type that adds exactly, the reduction is the sum of the list.\<close>

lemma np_add_reduce_sum_list:
  fixes xs :: "('a::monoid_add) list"
  shows "np_add_reduce xs = sum_list xs"
  by (simp add: np_add_reduce_def np_add_reduce_from)

lemma sum_list_concat_rows:
  fixes xss :: "('a::monoid_add) list list"
  shows "sum_list (concat xss) = sum_list (map sum_list xss)"
  by (induction xss) simp_all

lemma prod_list_split_axis:
  "k < length s \<Longrightarrow> prod_list s = prod_list (take k s) * (s ! k) * prod_list (drop (Suc k) s)"
  for s :: "nat list"
  using id_take_nth_drop [of k s] by (metis mult.assoc prod_list.Cons prod_list.append)

lemma length_concat_grid:
  "length (concat (map (\<lambda>b. map (f b) [0..<inner]) [0..<outer])) = outer * inner"
  by (simp add: length_concat comp_def sum_list_triv)

lemma np_sum_axis_shape:
  "shape (np_sum_axis k a) = take k (shape a) @ drop (Suc k) (shape a)"
  by (simp add: np_sum_axis_def Let_def)

lemma np_sum_axis_wf: "wf_ndarray (np_sum_axis k a)"
  by (simp add: wf_ndarray_def np_size_def np_sum_axis_def Let_def length_concat_grid)

text \<open>Summing a well-formed array along one of its axes keeps the sum of all elements.\<close>

lemma np_sum_axis_sum:
  fixes a :: "('a::comm_monoid_add) ndarray"
  assumes wf: "wf_ndarray a" and k: "k < length (shape a)"
  shows "sum_list (elems (np_sum_axis k a)) = sum_list (elems a)"
proof -
  define outer where "outer = prod_list (take k (shape a))"
  define n where "n = shape a ! k"
  define inner where "inner = prod_list (drop (Suc k) (shape a))"
  define g where "g = (!) (elems a)"
  have len: "length (elems a) = outer * (n * inner)"
    using wf prod_list_split_axis [OF k]
    by (simp add: wf_ndarray_def np_size_def outer_def n_def inner_def mult.assoc)
  have "sum_list (elems (np_sum_axis k a))
      = (\<Sum>b = 0..<outer. \<Sum>i = 0..<inner. \<Sum>j = 0..<n. g ((b * n + j) * inner + i))"
    by (simp add: np_sum_axis_def Let_def sum_list_concat_rows comp_def np_add_reduce_sum_list
        interv_sum_list_conv_sum_set_nat outer_def n_def inner_def g_def)
  also have "\<dots> = (\<Sum>b = 0..<outer. sum g {b * (n * inner)..<(b + 1) * (n * inner)})"
    unfolding sum_row_block by (simp add: algebra_simps)
  also have "\<dots> = sum g {0..<outer * (n * inner)}"
    by (rule sum_blocks)
  also have "\<dots> = sum_list (elems a)"
    by (simp add: sum_list_sum_nth len g_def)
  finally show ?thesis .
qed

lemma np_sum_axes_pair:
  fixes a :: "('a::comm_monoid_add) ndarray"
  assumes wf: "wf_ndarray a" and k: "k2 < length (shape a)" "k1 < k2"
  shows "sum_list (elems (np_sum_axes [k1, k2] a)) = sum_list (elems a)"
    and "shape (np_sum_axes [k1, k2] a) =
          take k1 (shape a) @ drop (Suc k1) (take k2 (shape a) @ drop (Suc k2) (shape a))"
proof -
  have "k1 < length (shape (np_sum_axis k2 a))"
    using k by (simp add: np_sum_axis_shape)
  then have "sum_list (elems (np_sum_axis k1 (np_sum_axis k2 a)))
      = sum_list (elems (np_sum_axis k2 a))"
    by (rule np_sum_axis_sum [OF np_sum_axis_wf])
  then show "sum_list (elems (np_sum_axes [k1, k2] a)) = sum_list (elems a)"
    using np_sum_axis_sum [OF wf k(1)] by (simp add: np_sum_axes_def)
  show "shape (np_sum_axes [k1, k2] a) =
          take k1 (shape a) @ drop (Suc k1) (take k2 (shape a) @ drop (Suc k2) (shape a))"
    using k by (simp add: np_sum_axes_def np_sum_axis_shape)
qed


section \<open>Binning by a factor that divides the extents\<close>

lemma bin_diffraction_even:
  fixes dc :: "('a::comm_monoid_add) DataCube"
  assumes sh: "shape (data4D dc) = [ry, rx, qy, qx]" and f: "1 < f"
      and dy: "nat f dvd qy" and dx: "nat f dvd qx"
  shows "bin_diffraction dc (PyInt f) =
     Inr (dc\<lparr>data4D := np_sum_axes [3, 5]
            ((data4D dc)\<lparr>shape := [ry, rx, qy div nat f, nat f, qx div nat f, nat f]\<rparr>)\<rparr>)"
proof -
  let ?s = "[int ry, int rx, int (qy div nat f), f, int (qx div nat f), f]"
  have fn: "f = int (nat f)" using f by simp
  have p: "prod_list ?s = int (ry * rx * ((qy div nat f) * nat f) * ((qx div nat f) * nat f))"
    by (subst (1 2) fn)
      (simp only: prod_list.Cons prod_list.Nil of_nat_mult mult_1_right mult.assoc)
  have q: "ry * rx * ((qy div nat f) * nat f) * ((qx div nat f) * nat f) = np_size (data4D dc)"
    using dy dx sh by (simp add: np_size_def)
  have "nat (prod_list ?s) = np_size (data4D dc)"
    by (simp only: p nat_int q)
  moreover have "\<forall>d\<in>set ?s. 0 \<le> d" using f by simp
  ultimately have "np_reshape ?s (data4D dc) = Inr ((data4D dc)\<lparr>shape := map nat ?s\<rparr>)"
    by (simp only: np_reshape_nonneg simp_thms if_True)
  then show ?thesis
    using sh f dy dx by (simp add: bin_diffraction_def mod_eq_0_iff_dvd Let_def)
qed

lemma bin_real_even:
  fixes dc :: "('a::comm_monoid_add) DataCube"
  assumes sh: "shape (data4D dc) = [ry, rx, qy, qx]" and f: "1 < f"
      and dy: "nat f dvd ry" and dx: "nat f dvd rx"
  shows "bin_real dc (PyInt f) =
     Inr (dc\<lparr>data4D := np_sum_axes [1, 3]
            ((data4D dc)\<lparr>shape := [ry div nat f, nat f, rx div nat f, nat f, qy, qx]\<rparr>)\<rparr>)"
proof -
  let ?s = "[int (ry div nat f), f, int (rx div nat f), f, int qy, int qx]"
  have fn: "f = int (nat f)" using f by simp
  have p: "prod_list ?s = int (((ry div nat f) * nat f) * ((rx div nat f) * nat f) * qy * qx)"
    by (subst (1 2) fn)
      (simp only: prod_list.Cons prod_list.Nil of_nat_mult mult_1_right mult.assoc)
  have q: "((ry div nat f) * nat f) * ((rx div nat f) * nat f) * qy * qx = np_size (data4D dc)"
    using dy dx sh by (simp add: np_size_def)
  have "nat (prod_list ?s) = np_size (data4D dc)"
    by (simp only: p nat_int q)
  moreover have "\<forall>d\<in>set ?s. 0 \<le> d" using f by simp
  ultimately have "np_reshape ?s (data4D dc) = Inr ((data4D dc)\<lparr>shape := map nat ?s\<rparr>)"
    by (simp only: np_reshape_nonneg simp_thms if_True)
  then show ?thesis
    using sh f dy dx by (simp add: bin_real_def mod_eq_0_iff_dvd Let_def)
qed


section \<open>The search and its visiting order\<close>

lemma find_append_first:
  "find P (xs @ ys) = (case find P xs of None \<Rightarrow> find P ys | Some x \<Rightarrow> Some x)"
  by (induction xs) simp_all

lemma search_hs_keys_find:
  "search_hs_keys key t =
     (case find (\<lambda>leaf. fst leaf = key) (visit_order t) of
        None \<Rightarrow> (False, PyInt (- 1))
      | Some leaf \<Rightarrow> (True, snd leaf))"
proof (induction t rule: visit_order.induct)
  case 1
  show ?case by simp
next
  case (2 k v rest)
  then show ?case by auto
next
  case (3 k sub rest)
  then show ?case by (auto simp: find_append_first split: option.splits)
qed


lemma find_Some_set: "find P xs = Some x \<Longrightarrow> x \<in> set xs \<and> P x"
  by (induction xs) (auto split: if_splits)


section \<open>The two passes over the metadata\<close>

text \<open>
  A pass over a search dictionary leaves the other keys of the metadata dictionary alone,
  and what it stores under a key of its own does not depend on what was stored before:
  whatever the first pass found is gone after the second.
\<close>

lemma get_metadata_other_key:
  "attr \<notin> fst ` set sd \<Longrightarrow> get_metadata_from_original_metadata t sd md attr = md attr"
  by (induction sd arbitrary: md) auto

lemma get_metadata_forgets:
  "attr \<in> fst ` set sd \<Longrightarrow>
     get_metadata_from_original_metadata t sd md attr
       = get_metadata_from_original_metadata t sd md' attr"
proof (induction sd arbitrary: md md')
  case Nil
  then show ?case by simp
next
  case (Cons item sd)
  obtain a keys where item: "item = (a, keys)" by (cases item)
  show ?case
  proof (cases "attr \<in> fst ` set sd")
    case True
    then show ?thesis using Cons.IH item by simp
  next
    case False
    with Cons.prems item have "attr = a" by auto
    with False item show ?thesis by (simp add: get_metadata_other_key)
  qed
qed


section \<open>The shape and the extent fields\<close>

text \<open>
  \<^verbatim>\<open>set_scan_shape\<close> with non-negative extents keeps the array's shape equal to the
  four extent fields: it assigns the scan extents together with the reshaped array.
\<close>

lemma set_scan_shape_keeps_fields:
  assumes inv: "map int (shape (data4D dc)) = [R_Ny dc, R_Nx dc, Q_Ny dc, Q_Nx dc]"
      and nn: "0 \<le> a" "0 \<le> b"
  shows "\<exists>dc'. set_scan_shape dc a b = Inr dc' \<and>
           map int (shape (data4D dc')) = [R_Ny dc', R_Nx dc', Q_Ny dc', Q_Nx dc']"
proof -
  consider (same) "set_scan_shape dc a b = Inr dc"
    | (new) a3 a4 where "np_reshape [R_N dc, Q_Ny dc, Q_Nx dc] (data4D dc) = Inr a3"
        "np_reshape [a, b, Q_Ny dc, Q_Nx dc] a3 = Inr a4"
        "set_scan_shape dc a b = Inr (dc\<lparr>data4D := a4, R_Ny := a, R_Nx := b\<rparr>)"
    using set_scan_shape_cases [of dc a b] by blast
  then show ?thesis
  proof cases
    case same
    with inv show ?thesis by simp
  next
    case new
    from inv have q: "0 \<le> Q_Ny dc" "0 \<le> Q_Nx dc"
      by (auto simp: map_eq_Cons_conv)
    with nn have "\<forall>d\<in>set [a, b, Q_Ny dc, Q_Nx dc]. 0 \<le> d" by simp
    then have "shape a4 = map nat [a, b, Q_Ny dc, Q_Nx dc]"
      using new(2) by (auto simp: np_reshape_nonneg split: if_splits)
    with nn q new(3) show ?thesis by simp
  qed
qed



section \<open>Rounded sums\<close>

text \<open>
  Every float64 sum is representable: whatever the order in which the entries of a bin
  are added, the sample stored for the bin is a representable number.
\<close>

lemma f64_shift_unfold_big: "\<not> n < 2 ^ 53 \<Longrightarrow> f64_shift n = Suc (f64_shift (n div 2))"
  by (subst f64_shift.simps) simp

lemma f64_shift_unfold_small: "n < 2 ^ 53 \<Longrightarrow> f64_shift n = 0"
  by (subst f64_shift.simps) simp

lemma f64_shift_upper: "n < 2 ^ (53 + f64_shift n)"
proof (induction n rule: f64_shift.induct)
  case (1 n)
  show ?case
  proof (cases "n < 2 ^ 53")
    case True
    then show ?thesis by (simp only: f64_shift_unfold_small add_0_right)
  next
    case False
    with 1 have "n div 2 < 2 ^ (53 + f64_shift (n div 2))" by simp
    then have "n < 2 * 2 ^ (53 + f64_shift (n div 2))" by linarith
    then show ?thesis
      by (simp only: f64_shift_unfold_big [OF False] add_Suc_right power_Suc)
  qed
qed

lemma f64_shift_lower: "0 < f64_shift n \<Longrightarrow> 2 ^ (52 + f64_shift n) \<le> n"
proof (induction n rule: f64_shift.induct)
  case (1 n)
  have big: "\<not> n < 2 ^ 53"
    using "1.prems" f64_shift_unfold_small [of n] by auto
  note s = f64_shift_unfold_big [OF big]
  show ?case
  proof (cases "0 < f64_shift (n div 2)")
    case True
    with 1 big have "2 ^ (52 + f64_shift (n div 2)) \<le> n div 2" by simp
    then have "2 * 2 ^ (52 + f64_shift (n div 2)) \<le> n" by linarith
    then show ?thesis by (simp only: s add_Suc_right power_Suc)
  next
    case False
    then have "f64_shift (n div 2) = 0" by simp
    with big show ?thesis by (simp add: s)
  qed
qed

lemma f64_shift_scaled:
  "2 ^ 52 \<le> m \<Longrightarrow> m < 2 ^ 53 \<Longrightarrow> f64_shift (m * 2 ^ k) = k"
proof (induction k)
  case 0
  then show ?case by (simp add: f64_shift_unfold_small)
next
  case (Suc k)
  have "(2::nat) ^ 53 \<le> m * 2 ^ Suc k"
  proof -
    have "(2::nat) ^ 53 = 2 ^ 52 * 2" by simp
    also have "\<dots> \<le> m * 2" using Suc.prems by simp
    also have "\<dots> \<le> m * 2 ^ Suc k" by simp
    finally show ?thesis .
  qed
  then have big: "\<not> m * 2 ^ Suc k < 2 ^ 53" by simp
  have "m * 2 ^ Suc k div 2 = m * 2 ^ k" by simp
  then show ?case using Suc by (simp only: f64_shift_unfold_big [OF big])
qed


lemma f64_representable_scaled:
  assumes "2 ^ 52 \<le> m" "m \<le> 2 ^ 53"
  shows "f64_representable (int m * 2 ^ k)" and "f64_representable (- (int m * 2 ^ k))"
proof -
  have sh: "m * 2 ^ k mod 2 ^ f64_shift (m * 2 ^ k) = 0"
  proof (cases "m < 2 ^ 53")
    case True
    with assms show ?thesis by (simp add: f64_shift_scaled)
  next
    case False
    with assms have m: "m = 2 ^ 52 * 2" by simp
    have "f64_shift (2 ^ 52 * 2 ^ Suc k) = Suc k"
      by (rule f64_shift_scaled) simp_all
    then have "f64_shift (m * 2 ^ k) = Suc k" by (simp add: m mult.assoc)
    then show ?thesis by (simp add: m)
  qed
  have n: "nat \<bar>int m * 2 ^ k\<bar> = m * 2 ^ k" "nat \<bar>- (int m * 2 ^ k)\<bar> = m * 2 ^ k"
    by (simp_all add: nat_mult_distrib nat_power_eq abs_mult)
  have "int (m * 2 ^ k) mod 2 ^ f64_shift (m * 2 ^ k) = 0"
    using sh by (metis of_nat_0 of_nat_mod of_nat_numeral of_nat_power)
  then have i: "(int m * 2 ^ k) mod 2 ^ f64_shift (m * 2 ^ k) = 0" by simp
  show "f64_representable (int m * 2 ^ k)"
    unfolding f64_representable_def n by (rule i)
  show "f64_representable (- (int m * 2 ^ k))"
    unfolding f64_representable_def n using i by (simp add: zmod_zminus1_eq_if)
qed

lemma f64_abs_upper: "\<bar>s\<bar> < 2 ^ 53 * 2 ^ f64_shift (nat \<bar>s\<bar>)"
proof -
  have "int (nat \<bar>s\<bar>) < int (2 ^ (53 + f64_shift (nat \<bar>s\<bar>)))"
    using f64_shift_upper [of "nat \<bar>s\<bar>"] by (simp only: of_nat_less_iff)
  then show ?thesis by (simp add: power_add)
qed

lemma f64_abs_lower:
  assumes "0 < f64_shift (nat \<bar>s\<bar>)"
  shows "2 ^ 52 * 2 ^ f64_shift (nat \<bar>s\<bar>) \<le> \<bar>s\<bar>"
proof -
  have "int (2 ^ (52 + f64_shift (nat \<bar>s\<bar>))) \<le> int (nat \<bar>s\<bar>)"
    using f64_shift_lower [OF assms] by (simp only: of_nat_le_iff)
  then show ?thesis by (simp add: power_add)
qed

lemma quotient_bounds:
  fixes s u :: int
  assumes u: "0 < u" and lo: "L * u \<le> s" and hi: "s < H * u"
  shows "L \<le> s div u" and "s div u < H"
proof -
  have s: "s = s div u * u + s mod u" by simp
  have r: "0 \<le> s mod u" "s mod u < u" using u by simp_all
  show "s div u < H"
  proof (rule ccontr)
    assume "\<not> s div u < H"
    then have "H * u \<le> s div u * u" using u by (simp add: mult_right_mono)
    with s r(1) hi show False by linarith
  qed
  show "L \<le> s div u"
  proof (rule ccontr)
    assume "\<not> L \<le> s div u"
    then have "s div u + 1 \<le> L" by simp
    then have "(s div u + 1) * u \<le> L * u" using u by (simp only: mult_right_mono less_imp_le)
    then have "s div u * u + u \<le> L * u" by (simp add: algebra_simps)
    with s r(2) lo show False by linarith
  qed
qed

lemma f64_round_representable: "f64_representable (f64_round s)"
proof -
  define k where "k = f64_shift (nat \<bar>s\<bar>)"
  define u :: int where "u = 2 ^ k"
  define q where "q = s div u"
  define r where "r = s mod u"
  have u: "0 < u" by (simp add: u_def)
  have s: "s = q * u + r" and r: "0 \<le> r" "r < u"
    using u by (simp_all add: q_def r_def)
  have cases: "f64_round s = q * u \<or> (f64_round s = (q + 1) * u \<and> u \<le> 2 * r)"
    by (auto simp: f64_round_def Let_def k_def u_def q_def r_def)
  have upper: "\<bar>s\<bar> < 2 ^ 53 * u"
    unfolding u_def k_def by (rule f64_abs_upper)
  show ?thesis
  proof (cases "k = 0")
    case True
    then have "u = 1" by (simp add: u_def)
    with r s have "r = 0" "q = s" by simp_all
    with cases \<open>u = 1\<close> have "f64_round s = s" by auto
    then show ?thesis using True by (simp add: f64_representable_def k_def)
  next
    case False
    then have lower: "2 ^ 52 * u \<le> \<bar>s\<bar>"
      using f64_abs_lower [of s] unfolding u_def k_def by simp
    show ?thesis
    proof (cases "0 \<le> s")
      case True
      with lower upper have "2 ^ 52 * u \<le> s" "s < 2 ^ 53 * u" by simp_all
      with u have qb: "2 ^ 52 \<le> q" "q < 2 ^ 53"
        unfolding q_def by (rule quotient_bounds)+
      define m where "m = nat q"
      define m' where "m' = nat (q + 1)"
      have "2 ^ 52 \<le> m" "m \<le> 2 ^ 53" "2 ^ 52 \<le> m'" "m' \<le> 2 ^ 53"
        using qb by (simp_all add: m_def m'_def nat_le_iff le_nat_iff)
      then have "f64_representable (int m * 2 ^ k)" "f64_representable (int m' * 2 ^ k)"
        by (simp_all add: f64_representable_scaled)
      moreover have "int m = q" "int m' = q + 1" using qb by (simp_all add: m_def m'_def)
      ultimately show ?thesis using cases by (auto simp: u_def)
    next
      case False
      with lower upper have b: "- (2 ^ 53) * u < s" "s \<le> - (2 ^ 52) * u" by simp_all
      have lo: "- (2 ^ 53) * u \<le> s" using b(1) by simp
      have hi: "s < (- (2 ^ 52) + 1) * u" using b(2) u by (simp add: algebra_simps)
      have qlo: "- (2 ^ 53) \<le> q"
        unfolding q_def using u lo hi by (rule quotient_bounds(1))
      have "q < - (2 ^ 52) + 1"
        unfolding q_def using u lo hi by (rule quotient_bounds(2))
      then have qhi: "q \<le> - (2 ^ 52)" by simp
      have up: "q + 1 \<le> - (2 ^ 52)" if "f64_round s = (q + 1) * u \<and> u \<le> 2 * r" "f64_round s \<noteq> q * u"
      proof (rule ccontr)
        assume "\<not> q + 1 \<le> - (2 ^ 52)"
        with qhi have "q = - (2 ^ 52)" by simp
        with s b(2) r have "r = 0" by simp
        with that u show False by simp
      qed
      define m where "m = nat (- q)"
      define m' where "m' = nat (- (q + 1))"
      have mb: "2 ^ 52 \<le> m" "m \<le> 2 ^ 53" 
        using qlo qhi by (simp_all add: m_def nat_le_iff le_nat_iff)
      have mq: "- (int m * 2 ^ k) = q * u" using qhi by (simp add: m_def u_def)
      show ?thesis
      proof (cases "f64_round s = q * u")
        case True
        then show ?thesis using f64_representable_scaled(2) [OF mb, of k] mq by simp
      next
        case False
        with cases have c: "f64_round s = (q + 1) * u \<and> u \<le> 2 * r" by simp
        from up [OF c False] qlo have "2 ^ 52 \<le> m'" "m' \<le> 2 ^ 53"
          by (simp_all add: m'_def nat_le_iff le_nat_iff)
        then have "f64_representable (- (int m' * 2 ^ k))"
          by (rule f64_representable_scaled(2))
        moreover have "- (int m' * 2 ^ k) = (q + 1) * u"
          using up [OF c False] by (simp add: m'_def u_def algebra_simps)
        ultimately show ?thesis using c by simp
      qed
    qed
  qed
qed

text \<open>The shifts and the rounded values of the numbers of the example below.\<close>

lemma f64_shift_values:
  "f64_shift 0 = 0" "f64_shift 1 = 0" "f64_shift (Suc 0) = 0"
  "f64_shift 9007199254740992 = 1" "f64_shift 9007199254740993 = 1"
  by (simp_all add: f64_shift.simps)

lemma f64_round_values:
  "f64_round 0 = 0" "f64_round 1 = 1"
  "f64_round 9007199254740992 = 9007199254740992"
  "f64_round 9007199254740993 = 9007199254740992"
  by (simp_all add: f64_round_def f64_shift_values)


section \<open>The claims\<close>

text \<open>
  C1. The claim: after \<^verbatim>\<open>set_scan_shape\<close>, \<^verbatim>\<open>bin_diffraction\<close> or \<^verbatim>\<open>bin_real\<close> with
  a factor above 1, the shape of the stored array is the tuple of the extent fields, and
  after binning the fields of the binned axes hold the new, smaller extents.
  The binning methods assign \<^verbatim>\<open>data4D\<close> only. A DataCube built from a
  \<open>1 \<times> 1 \<times> 2 \<times> 2\<close> array, whose shape is its extent fields, holds after binning by
  2 in diffraction space a \<open>1 \<times> 1 \<times> 1 \<times> 1\<close> array while \<^verbatim>\<open>Q_Ny\<close> and \<^verbatim>\<open>Q_Nx\<close>
  are still 2; one built
  from a \<open>2 \<times> 2 \<times> 1 \<times> 1\<close> array and binned by 2 in real space keeps \<^verbatim>\<open>R_Ny\<close> and
  \<^verbatim>\<open>R_Nx\<close> at 2.
\<close>

theorem binning_leaves_extent_fields:
  "DataCube_init \<lparr>shape = [1, 1, 2, 2], elems = [1, 2, 3, 4]\<rparr> 1 1 2 2 None None None
     = Inr (example_cube [1, 1, 2, 2] [1, 2, 3, 4]) \<and>
   map int (shape (data4D (example_cube [1, 1, 2, 2] [1, 2, 3, 4])))
     = [R_Ny (example_cube [1, 1, 2, 2] [1, 2, 3, 4]), R_Nx (example_cube [1, 1, 2, 2] [1, 2, 3, 4]),
        Q_Ny (example_cube [1, 1, 2, 2] [1, 2, 3, 4]), Q_Nx (example_cube [1, 1, 2, 2] [1, 2, 3, 4])] \<and>
   bin_diffraction (example_cube [1, 1, 2, 2] [1, 2, 3, 4]) (PyInt 2)
     = Inr ((example_cube [1, 1, 2, 2] [1, 2, 3, 4])
              \<lparr>data4D := \<lparr>shape = [1, 1, 1, 1], elems = [10]\<rparr>\<rparr>) \<and>
   Q_Ny ((example_cube [1, 1, 2, 2] [1, 2, 3, 4])
              \<lparr>data4D := \<lparr>shape = [1, 1, 1, 1], elems = [10]\<rparr>\<rparr>) = 2 \<and>
   Q_Nx ((example_cube [1, 1, 2, 2] [1, 2, 3, 4])
              \<lparr>data4D := \<lparr>shape = [1, 1, 1, 1], elems = [10]\<rparr>\<rparr>) = 2 \<and>
   DataCube_init \<lparr>shape = [2, 2, 1, 1], elems = [1, 2, 3, 4]\<rparr> 2 2 1 1 None None None
     = Inr (example_cube [2, 2, 1, 1] [1, 2, 3, 4]) \<and>
   bin_real (example_cube [2, 2, 1, 1] [1, 2, 3, 4]) (PyInt 2)
     = Inr ((example_cube [2, 2, 1, 1] [1, 2, 3, 4])
              \<lparr>data4D := \<lparr>shape = [1, 1, 1, 1], elems = [10]\<rparr>\<rparr>) \<and>
   R_Ny ((example_cube [2, 2, 1, 1] [1, 2, 3, 4])
              \<lparr>data4D := \<lparr>shape = [1, 1, 1, 1], elems = [10]\<rparr>\<rparr>) = 2 \<and>
   R_Nx ((example_cube [2, 2, 1, 1] [1, 2, 3, 4])
              \<lparr>data4D := \<lparr>shape = [1, 1, 1, 1], elems = [10]\<rparr>\<rparr>) = 2"
  by (simp add: DataCube_init_def set_scan_shape_def bin_diffraction_def bin_real_def
      example_cube_def np_reshape_def np_size_def np_sum_axes_def np_sum_axis_def
      np_add_reduce_def Let_def upt_rec)

text \<open>
  C2. The claim: after construction a field holds the shortlist tree's value when the
  shortlist has one of its keys, and otherwise the value resolved from the full tree.
  The second pass stores the empty string under every field before it searches, so a
  field the shortlist does not resolve ends as the empty string. With \<^verbatim>\<open>beam_energy\<close>
  200 in the full tree, the pass over the full tree alone gives
  \<^verbatim>\<open>accelerating_voltage_kV\<close> the value 200, and the constructed DataCube holds the
  empty string there, with no shortlist and with a shortlist that lacks the key.
\<close>

theorem shortlist_pass_resets_unresolved_field:
  "get_metadata_from_original_metadata (Some (beam_tree 200))
       original_to_microscope_search_dict Map.empty ''accelerating_voltage_kV''
     = Some (PyInt 200) \<and>
   microscope (setup_metadata None (Some (beam_tree 200))) ''accelerating_voltage_kV''
     = Some (PyStr '''') \<and>
   microscope (setup_metadata (Some [(''camera_length'', Leaf (PyInt 5))]) (Some (beam_tree 200)))
       ''accelerating_voltage_kV''
     = Some (PyStr '''') \<and>
   DataCube_init \<lparr>shape = [1, 1, 2, 2], elems = [1, 2, 3, 4]\<rparr> 1 1 2 2
       None (Some (beam_tree 200)) None
     = Inr ((example_cube [1, 1, 2, 2] [1, 2, 3, 4])
              \<lparr>metadata := Some (setup_metadata None (Some (beam_tree 200)))\<rparr>)"
  by (simp add: setup_metadata_def original_to_microscope_search_dict_def beam_tree_def
      DataCube_init_def set_scan_shape_def example_cube_def np_reshape_def np_size_def)

text \<open>
  C3. The claim: when a binned extent is not a multiple of the factor, the trailing
  remainder rows and/or columns are dropped and the output has the floor extents, each
  sample the sum of its bin.
  The truncating slice is \<^verbatim>\<open>:-(Q_Ny%bin_q), :-(Q_Nx%bin_q)\<close> on both axes at once.
  When one remainder is 0 and the other is not, \<^verbatim>\<open>:-0\<close> is \<^verbatim>\<open>:0\<close> and empties
  that axis: a \<open>1 \<times> 1 \<times> 2 \<times> 3\<close> array binned by 2 becomes \<open>1 \<times> 1 \<times> 0 \<times> 2\<close>, the
  reshape raises \<^verbatim>\<open>ValueError\<close>, and the emptied array stays in \<^verbatim>\<open>data4D\<close>;
  \<^verbatim>\<open>bin_real\<close> does the same to a \<open>2 \<times> 3 \<times> 1 \<times> 1\<close> array. With both remainders
  non-zero (\<open>1 \<times> 1 \<times> 3 \<times> 3\<close>) the truncation is the one claimed.
\<close>

theorem binning_one_uneven_axis_raises:
  "bin_diffraction (example_cube [1, 1, 2, 3] [1, 2, 3, 4, 5, 6]) (PyInt 2)
     = Inl (ValueError, (example_cube [1, 1, 2, 3] [1, 2, 3, 4, 5, 6])
              \<lparr>data4D := \<lparr>shape = [1, 1, 0, 2], elems = []\<rparr>\<rparr>) \<and>
   bin_real (example_cube [2, 3, 1, 1] [1, 2, 3, 4, 5, 6]) (PyInt 2)
     = Inl (ValueError, (example_cube [2, 3, 1, 1] [1, 2, 3, 4, 5, 6])
              \<lparr>data4D := \<lparr>shape = [0, 2, 1, 1], elems = []\<rparr>\<rparr>) \<and>
   bin_diffraction (example_cube [1, 1, 3, 3] [1, 2, 3, 4, 5, 6, 7, 8, 9]) (PyInt 2)
     = Inr ((example_cube [1, 1, 3, 3] [1, 2, 3, 4, 5, 6, 7, 8, 9])
              \<lparr>data4D := \<lparr>shape = [1, 1, 1, 1], elems = [12]\<rparr>\<rparr>)"
  by (simp add: bin_diffraction_def bin_real_def example_cube_def np_reshape_def np_size_def
      np_slice_stop_def py_slice_stop_def np_sum_axes_def np_sum_axis_def np_add_reduce_def
      Let_def upt_rec)

text \<open>
  C4. Constructing a DiffractionSlice always fails: whatever the parent DataCube and the
  data, \<^verbatim>\<open>__init__\<close> raises \<^verbatim>\<open>AttributeError\<close>, because it reads \<^verbatim>\<open>self.Q_Nx\<close>
  before that attribute is assigned; the shape check after it is never reached.
\<close>

theorem DiffractionSlice_init_raises:
  "DiffractionSlice_init parent data = Inl AttributeError"
  by (simp add: DiffractionSlice_init_def getattr_def)

theorem DiffractionSlice_init_raises_witness:
  "DiffractionSlice_init (example_cube [1, 1, 2, 2] [1, 2, 3, 4])
     \<lparr>shape = [2, 2], elems = [1, 2, 3, 4]\<rparr> = Inl AttributeError"
  by (rule DiffractionSlice_init_raises)

text \<open>
  C5, as amended. For every key and tree, the search of an absent tree returns
  \<open>(False, -1)\<close> at once; every result is either \<open>(False, -1)\<close> or \<open>(True, v)\<close>
  where the tree has a leaf with the target key and the value \<open>v\<close>; and the flag is
  \<open>True\<close> exactly when some leaf of the tree has the key. So the flag alone tells a
  failed search from a successful one: the value \<open>-1\<close> that comes with \<open>False\<close> is an
  ordinary integer, which a leaf may hold too.
\<close>

theorem search_not_found_result:
  "search_hs_tree key None = (False, PyInt (- 1)) \<and>
   (search_hs_tree key tree = (False, PyInt (- 1)) \<or>
    (\<exists>t v. tree = Some t \<and> search_hs_tree key tree = (True, v) \<and>
       (key, v) \<in> set (visit_order t))) \<and>
   ((\<exists>v. search_hs_tree key (Some t) = (True, v)) = (key \<in> fst ` set (visit_order t)))"
proof (intro conjI)
  show "search_hs_tree key None = (False, PyInt (- 1))" by simp
  show "search_hs_tree key tree = (False, PyInt (- 1)) \<or>
    (\<exists>t v. tree = Some t \<and> search_hs_tree key tree = (True, v) \<and>
       (key, v) \<in> set (visit_order t))"
  proof (cases tree)
    case None
    then show ?thesis by simp
  next
    case (Some t)
    show ?thesis
    proof (cases "find (\<lambda>leaf. fst leaf = key) (visit_order t)")
      case None
      with Some show ?thesis by (simp add: search_hs_keys_find)
    next
      case (Some leaf)
      then have "leaf \<in> set (visit_order t)" and "fst leaf = key"
        by (auto dest: find_Some_set)
      then have "(key, snd leaf) \<in> set (visit_order t)" by auto
      with Some \<open>tree = Some t\<close> show ?thesis by (simp add: search_hs_keys_find)
    qed
  qed
  show "(\<exists>v. search_hs_tree key (Some t) = (True, v)) = (key \<in> fst ` set (visit_order t))"
    by (auto simp: search_hs_keys_find find_None_iff image_iff dest: find_Some_set
        split: option.splits)
qed

theorem search_not_found_result_witness:
  "search_hs_tree ''b'' None = (False, PyInt (- 1)) \<and>
   search_hs_tree ''b'' (Some [(''a'', Leaf (PyInt (- 1)))]) = (False, PyInt (- 1)) \<and>
   ''b'' \<notin> fst ` set (visit_order [(''a'', Leaf (PyInt (- 1)))]) \<and>
   ''a'' \<in> fst ` set (visit_order [(''a'', Leaf (PyInt (- 1)))]) \<and>
   search_hs_tree ''a'' (Some [(''a'', Leaf (PyInt (- 1)))]) = (True, PyInt (- 1)) \<and>
   (''a'', PyInt (- 1)) \<in> set (visit_order [(''a'', Leaf (PyInt (- 1)))])"
  using search_not_found_result
      [of "''b''" "Some [(''a'', Leaf (PyInt (- 1)))]" "[(''a'', Leaf (PyInt (- 1)))]"]
    search_not_found_result
      [of "''a''" "Some [(''a'', Leaf (PyInt (- 1)))]" "[(''a'', Leaf (PyInt (- 1)))]"]
  by simp

text \<open>
  C5 as stated fails: the value returned with \<open>False\<close> is not set apart from the leaf
  values. In the tree with the single leaf \<^verbatim>\<open>a = -1\<close>, the search for \<^verbatim>\<open>a\<close>
  succeeds with the value \<open>-1\<close>, and the search for \<^verbatim>\<open>b\<close> fails with the same value.
\<close>

theorem sentinel_is_a_leaf_value:
  "search_hs_tree ''a'' (Some [(''a'', Leaf (PyInt (- 1)))]) = (True, PyInt (- 1)) \<and>
   search_hs_tree ''b'' (Some [(''a'', Leaf (PyInt (- 1)))]) = (False, PyInt (- 1)) \<and>
   snd (search_hs_tree ''a'' (Some [(''a'', Leaf (PyInt (- 1)))]))
     = snd (search_hs_tree ''b'' (Some [(''a'', Leaf (PyInt (- 1)))]))"
  by simp

text \<open>
  C6, as amended. For every DataCube whose diffraction extent fields are non-negative
  and every requested scan shape with non-negative extents: when the product of the
  requested extents and the diffraction extents is not the element count of the array,
  \<^verbatim>\<open>set_scan_shape\<close> returns normally and leaves the DataCube exactly as it was.
\<close>

theorem set_scan_shape_mismatch_noop:
  assumes "0 \<le> new_R_Ny" "0 \<le> new_R_Nx" "0 \<le> Q_Ny self" "0 \<le> Q_Nx self"
      and "new_R_Ny * new_R_Nx * Q_Ny self * Q_Nx self \<noteq> int (np_size (data4D self))"
  shows "set_scan_shape self new_R_Ny new_R_Nx = Inr self"
proof (cases "np_reshape [R_N self, Q_Ny self, Q_Nx self] (data4D self)")
  case (Inl e)
  then show ?thesis by (simp add: set_scan_shape_def np_reshape_error)
next
  case (Inr a3)
  then have "np_size a3 = np_size (data4D self)" by (rule np_reshape_size)
  moreover have "0 \<le> new_R_Ny * new_R_Nx * Q_Ny self * Q_Nx self" using assms by simp
  ultimately have "np_size a3 \<noteq> nat (new_R_Ny * new_R_Nx * Q_Ny self * Q_Nx self)"
    using assms(5) by linarith
  then have "np_reshape [new_R_Ny, new_R_Nx, Q_Ny self, Q_Nx self] a3 = Inl ValueError"
    using assms by (simp add: np_reshape_nonneg mult.assoc)
  with Inr show ?thesis by (simp add: set_scan_shape_def)
qed

theorem set_scan_shape_mismatch_noop_witness:
  "3 * 1 * Q_Ny (example_cube [2, 2, 1, 1] [1, 2, 3, 4])
       * Q_Nx (example_cube [2, 2, 1, 1] [1, 2, 3, 4])
     \<noteq> int (np_size (data4D (example_cube [2, 2, 1, 1] [1, 2, 3, 4]))) \<and>
   set_scan_shape (example_cube [2, 2, 1, 1] [1, 2, 3, 4]) 3 1
     = Inr (example_cube [2, 2, 1, 1] [1, 2, 3, 4])"
  using set_scan_shape_mismatch_noop [of 3 1 "example_cube [2, 2, 1, 1] [1, 2, 3, 4]"]
  by (simp add: example_cube_def np_size_def)

text \<open>
  C6 as stated fails for a negative requested extent, which numpy reads as the dimension
  to infer. On the \<open>2 \<times> 2 \<times> 1 \<times> 1\<close> DataCube the request \<open>(-1, 4)\<close> has the product
  \<open>-4\<close>, not the element count 4, yet the array is reshaped to \<open>1 \<times> 4 \<times> 1 \<times> 1\<close> and
  \<^verbatim>\<open>R_Ny\<close> becomes \<open>-1\<close>.
\<close>

theorem set_scan_shape_negative_extent_reshapes:
  "- 1 * 4 * Q_Ny (example_cube [2, 2, 1, 1] [1, 2, 3, 4])
       * Q_Nx (example_cube [2, 2, 1, 1] [1, 2, 3, 4])
     \<noteq> int (np_size (data4D (example_cube [2, 2, 1, 1] [1, 2, 3, 4]))) \<and>
   set_scan_shape (example_cube [2, 2, 1, 1] [1, 2, 3, 4]) (- 1) 4
     = Inr ((example_cube [2, 2, 1, 1] [1, 2, 3, 4])
              \<lparr>data4D := \<lparr>shape = [1, 4, 1, 1], elems = [1, 2, 3, 4]\<rparr>,
               R_Ny := - 1, R_Nx := 4\<rparr>) \<and>
   set_scan_shape (example_cube [2, 2, 1, 1] [1, 2, 3, 4]) (- 1) 4
     \<noteq> Inr (example_cube [2, 2, 1, 1] [1, 2, 3, 4])"
  by (simp add: set_scan_shape_def example_cube_def np_reshape_def np_size_def)

text \<open>
  C7, as amended. For every integer factor \<open>f > 1\<close> and every DataCube holding a
  well-formed 4D array that is not empty, has extents below \<open>2 ^ 53\<close> and an element
  type that adds exactly (integers, machine integers that wrap around): when \<open>f\<close>
  divides both diffraction extents, \<^verbatim>\<open>bin_diffraction\<close> returns, the array is well
  formed with the quotient extents, and the sum of all its elements is the sum before
  binning; the same for \<^verbatim>\<open>bin_real\<close> and the real-space extents.
\<close>

theorem binning_conserves_total:
  fixes dc :: "('a::comm_monoid_add) DataCube"
  assumes sh: "shape (data4D dc) = [ry, rx, qy, qx]" and wf: "wf_ndarray (data4D dc)"
      and nonempty: "0 < np_size (data4D dc)"
      and below: "ry < 2 ^ 53" "rx < 2 ^ 53" "qy < 2 ^ 53" "qx < 2 ^ 53"
      and f: "1 < f"
  shows "(nat f dvd qy \<and> nat f dvd qx \<longrightarrow>
            (\<exists>dc'. bin_diffraction dc (PyInt f) = Inr dc' \<and>
               wf_ndarray (data4D dc') \<and>
               shape (data4D dc') = [ry, rx, qy div nat f, qx div nat f] \<and>
               sum_list (elems (data4D dc')) = sum_list (elems (data4D dc)))) \<and>
         (nat f dvd ry \<and> nat f dvd rx \<longrightarrow>
            (\<exists>dc'. bin_real dc (PyInt f) = Inr dc' \<and>
               wf_ndarray (data4D dc') \<and>
               shape (data4D dc') = [ry div nat f, rx div nat f, qy, qx] \<and>
               sum_list (elems (data4D dc')) = sum_list (elems (data4D dc))))"
proof (intro conjI impI)
  assume d: "nat f dvd qy \<and> nat f dvd qx"
  let ?a6 = "(data4D dc)\<lparr>shape := [ry, rx, qy div nat f, nat f, qx div nat f, nat f]\<rparr>"
  have "wf_ndarray ?a6"
    using wf sh d by (simp add: wf_ndarray_def np_size_def)
  then have "sum_list (elems (np_sum_axes [3, 5] ?a6)) = sum_list (elems ?a6)"
    and "shape (np_sum_axes [3, 5] ?a6) = [ry, rx, qy div nat f, qx div nat f]"
    by (simp_all add: np_sum_axes_pair)
  moreover have "wf_ndarray (np_sum_axes [3, 5] ?a6)"
    by (simp add: np_sum_axes_def np_sum_axis_wf)
  ultimately show "\<exists>dc'. bin_diffraction dc (PyInt f) = Inr dc' \<and>
      wf_ndarray (data4D dc') \<and>
      shape (data4D dc') = [ry, rx, qy div nat f, qx div nat f] \<and>
      sum_list (elems (data4D dc')) = sum_list (elems (data4D dc))"
    using bin_diffraction_even [OF sh f] d by simp
next
  assume d: "nat f dvd ry \<and> nat f dvd rx"
  let ?a6 = "(data4D dc)\<lparr>shape := [ry div nat f, nat f, rx div nat f, nat f, qy, qx]\<rparr>"
  have "wf_ndarray ?a6"
    using wf sh d by (simp add: wf_ndarray_def np_size_def)
  then have "sum_list (elems (np_sum_axes [1, 3] ?a6)) = sum_list (elems ?a6)"
    and "shape (np_sum_axes [1, 3] ?a6) = [ry div nat f, rx div nat f, qy, qx]"
    by (simp_all add: np_sum_axes_pair)
  moreover have "wf_ndarray (np_sum_axes [1, 3] ?a6)"
    by (simp add: np_sum_axes_def np_sum_axis_wf)
  ultimately show "\<exists>dc'. bin_real dc (PyInt f) = Inr dc' \<and>
      wf_ndarray (data4D dc') \<and>
      shape (data4D dc') = [ry div nat f, rx div nat f, qy, qx] \<and>
      sum_list (elems (data4D dc')) = sum_list (elems (data4D dc))"
    using bin_real_even [OF sh f] d by simp
qed

theorem binning_conserves_total_witness:
  "wf_ndarray (data4D (example_cube [2, 2, 2, 2]
       [1, 2, 3, 4, 5, 6, 7, 8, 9, 10, 11, 12, 13, 14, 15, 16])) \<and>
   0 < np_size (data4D (example_cube [2, 2, 2, 2]
       [1, 2, 3, 4, 5, 6, 7, 8, 9, 10, 11, 12, 13, 14, 15, 16])) \<and>
   (\<exists>dc'. bin_diffraction (example_cube [2, 2, 2, 2]
              [1, 2, 3, 4, 5, 6, 7, 8, 9, 10, 11, 12, 13, 14, 15, 16]) (PyInt 2) = Inr dc' \<and>
      wf_ndarray (data4D dc') \<and>
      shape (data4D dc') = [2, 2, 1, 1] \<and> sum_list (elems (data4D dc')) = 136) \<and>
   (\<exists>dc'. bin_real (example_cube [2, 2, 2, 2]
              [1, 2, 3, 4, 5, 6, 7, 8, 9, 10, 11, 12, 13, 14, 15, 16]) (PyInt 2) = Inr dc' \<and>
      wf_ndarray (data4D dc') \<and>
      shape (data4D dc') = [1, 1, 2, 2] \<and> sum_list (elems (data4D dc')) = 136)"
  using binning_conserves_total
      [of "example_cube [2, 2, 2, 2] [1, 2, 3, 4, 5, 6, 7, 8, 9, 10, 11, 12, 13, 14, 15, 16]"
        2 2 2 2 2]
  by (simp add: example_cube_def wf_ndarray_def np_size_def)

text \<open>
  C7 as stated fails for floating-point samples, whose sums are rounded. The float64
  array of shape \<open>1 \<times> 1 \<times> 2 \<times> 2\<close> with the samples \<open>2 ^ 53\<close>, 1, 0, 0, each a
  representable number, has the total \<open>2 ^ 53 + 1\<close>. Binned by 2 it holds the single
  sample \<open>2 ^ 53\<close>: the total is not a representable number, so no order of adding the
  four samples gives it (\<open>f64_round_representable\<close>).
\<close>

theorem float_binning_rounds_total:
  "f64_representable (2 ^ 53) \<and> f64_representable 1 \<and> f64_representable 0 \<and>
   \<not> f64_representable (2 ^ 53 + 1) \<and>
   bin_diffraction (float_cube [1, 1, 2, 2] [Whole (2 ^ 53), Whole 1, Whole 0, Whole 0]) (PyInt 2)
     = Inr ((float_cube [1, 1, 2, 2] [Whole (2 ^ 53), Whole 1, Whole 0, Whole 0])
              \<lparr>data4D := \<lparr>shape = [1, 1, 1, 1], elems = [Whole (2 ^ 53)]\<rparr>\<rparr>) \<and>
   sum_list (map f64_value [Whole (2 ^ 53), Whole 1, Whole 0, Whole 0]) = 2 ^ 53 + 1 \<and>
   sum_list (map f64_value [Whole (2 ^ 53)]) = 2 ^ 53 \<and>
   sum_list (map f64_value [Whole (2 ^ 53)])
     \<noteq> sum_list (map f64_value [Whole (2 ^ 53), Whole 1, Whole 0, Whole 0])"
proof -
  have rep: "f64_representable 9007199254740992" "f64_representable 1" "f64_representable 0"
    "\<not> f64_representable 9007199254740993"
    by (simp_all add: f64_representable_def f64_shift_values)
  have binned: "bin_diffraction
        (float_cube [1, 1, 2, 2] [Whole 9007199254740992, Whole 1, Whole 0, Whole 0]) (PyInt 2)
      = Inr ((float_cube [1, 1, 2, 2] [Whole 9007199254740992, Whole 1, Whole 0, Whole 0])
               \<lparr>data4D := \<lparr>shape = [1, 1, 1, 1], elems = [Whole 9007199254740992]\<rparr>\<rparr>)"
    by (simp add: bin_diffraction_def float_cube_def np_reshape_def np_size_def
        np_sum_axes_def np_sum_axis_def np_add_reduce_def plus_float64_def zero_float64_def
        f64_round_values Let_def upt_rec)
  show ?thesis using rep binned by simp
qed

text \<open>
  C8. For every DataCube and every scan shape \<open>(a, b)\<close> whose product with the
  diffraction extents is the element count: \<^verbatim>\<open>set_scan_shape(a, b)\<close> followed by
  \<^verbatim>\<open>set_scan_shape\<close> with the original scan extents returns both times, and the
  elements of the array are the original ones in the original order. When the shape of
  the original array was its four extent fields, the whole DataCube, the array's shape
  and the scan extents included, is the original one again; and when moreover
  \<^verbatim>\<open>R_N\<close> is the product of the scan extents and \<open>a\<close>, \<open>b\<close> are not negative, the
  DataCube in between has the requested shape \<open>(a, b, Q_Ny, Q_Nx)\<close>.
\<close>

theorem set_scan_shape_roundtrip:
  assumes valid: "a * b * Q_Ny dc * Q_Nx dc = int (np_size (data4D dc))"
  shows "\<exists>dc1 dc2. set_scan_shape dc a b = Inr dc1 \<and>
           set_scan_shape dc1 (R_Ny dc) (R_Nx dc) = Inr dc2 \<and>
           elems (data4D dc2) = elems (data4D dc) \<and>
           (map int (shape (data4D dc)) = [R_Ny dc, R_Nx dc, Q_Ny dc, Q_Nx dc] \<longrightarrow> dc2 = dc) \<and>
           (map int (shape (data4D dc)) = [R_Ny dc, R_Nx dc, Q_Ny dc, Q_Nx dc] \<and>
            R_N dc = R_Ny dc * R_Nx dc \<and> 0 \<le> a \<and> 0 \<le> b \<longrightarrow>
              shape (data4D dc1) = [nat a, nat b, nat (Q_Ny dc), nat (Q_Nx dc)] \<and>
              R_Ny dc1 = a \<and> R_Nx dc1 = b)"
proof -
  obtain dc1 where 1: "set_scan_shape dc a b = Inr dc1"
    and e1: "elems (data4D dc1) = elems (data4D dc)"
    and s1: "np_size (data4D dc1) = np_size (data4D dc)"
    and r1: "dc1 = dc\<lparr>data4D := data4D dc1, R_Ny := R_Ny dc1, R_Nx := R_Nx dc1\<rparr>"
    using set_scan_shape_returns [of dc a b] by blast
  obtain dc2 where 2: "set_scan_shape dc1 (R_Ny dc) (R_Nx dc) = Inr dc2"
    and e2: "elems (data4D dc2) = elems (data4D dc1)"
    using set_scan_shape_returns [of dc1 "R_Ny dc" "R_Nx dc"] by blast
  have "dc2 = dc" if inv: "map int (shape (data4D dc)) = [R_Ny dc, R_Nx dc, Q_Ny dc, Q_Nx dc]"
  proof (cases "np_reshape [R_N dc, Q_Ny dc, Q_Nx dc] (data4D dc)")
    case (Inl e)
    then have "dc1 = dc" using 1 by (simp add: set_scan_shape_def np_reshape_error)
    moreover have "set_scan_shape dc (R_Ny dc) (R_Nx dc) = Inr dc"
      using Inl by (simp add: set_scan_shape_def np_reshape_error)
    ultimately show ?thesis using 2 by simp
  next
    case (Inr a3)
    then have "np_reshape [R_N dc, Q_Ny dc, Q_Nx dc] (data4D dc1)
        = Inr ((data4D dc1)\<lparr>shape := shape a3\<rparr>)"
      using s1 by (rule np_reshape_same_size)
    with inv r1 e1 s1 have "set_scan_shape dc1 (R_Ny dc) (R_Nx dc) = Inr dc"
      by (rule set_scan_shape_restore)
    with 2 show ?thesis by simp
  qed
  moreover have "shape (data4D dc1) = [nat a, nat b, nat (Q_Ny dc), nat (Q_Nx dc)] \<and>
      R_Ny dc1 = a \<and> R_Nx dc1 = b"
    if "map int (shape (data4D dc)) = [R_Ny dc, R_Nx dc, Q_Ny dc, Q_Nx dc]"
      and "R_N dc = R_Ny dc * R_Nx dc" and "0 \<le> a" and "0 \<le> b"
    using set_scan_shape_valid [OF that valid] 1 by simp
  ultimately show ?thesis using 1 2 e1 e2 by auto
qed

theorem set_scan_shape_roundtrip_witness:
  "4 * 1 * Q_Ny (example_cube [2, 2, 1, 1] [1, 2, 3, 4])
       * Q_Nx (example_cube [2, 2, 1, 1] [1, 2, 3, 4])
     = int (np_size (data4D (example_cube [2, 2, 1, 1] [1, 2, 3, 4]))) \<and>
   set_scan_shape (example_cube [2, 2, 1, 1] [1, 2, 3, 4]) 4 1
     = Inr ((example_cube [2, 2, 1, 1] [1, 2, 3, 4])
              \<lparr>data4D := \<lparr>shape = [4, 1, 1, 1], elems = [1, 2, 3, 4]\<rparr>,
               R_Ny := 4, R_Nx := 1\<rparr>) \<and>
   set_scan_shape ((example_cube [2, 2, 1, 1] [1, 2, 3, 4])
              \<lparr>data4D := \<lparr>shape = [4, 1, 1, 1], elems = [1, 2, 3, 4]\<rparr>,
               R_Ny := 4, R_Nx := 1\<rparr>) 2 2
     = Inr (example_cube [2, 2, 1, 1] [1, 2, 3, 4])"
proof -
  let ?dc = "example_cube [2, 2, 1, 1] [1, 2, 3, 4]"
  have first: "set_scan_shape ?dc 4 1
      = Inr (?dc\<lparr>data4D := \<lparr>shape = [4, 1, 1, 1], elems = [1, 2, 3, 4]\<rparr>,
                R_Ny := 4, R_Nx := 1\<rparr>)"
    by (simp add: set_scan_shape_def example_cube_def np_reshape_def np_size_def)
  have valid: "4 * 1 * Q_Ny ?dc * Q_Nx ?dc = int (np_size (data4D ?dc))"
    by (simp add: example_cube_def np_size_def)
  have inv: "map int (shape (data4D ?dc)) = [R_Ny ?dc, R_Nx ?dc, Q_Ny ?dc, Q_Nx ?dc]"
    by (simp add: example_cube_def)
  have orig: "R_Ny ?dc = 2" "R_Nx ?dc = 2"
    by (simp_all add: example_cube_def)
  from set_scan_shape_roundtrip [OF valid] inv first orig show ?thesis
    using valid by auto
qed

text \<open>
  C9. For every binning factor that is a \<^verbatim>\<open>float\<close> greater than 1,
  \<^verbatim>\<open>bin_diffraction\<close> and \<^verbatim>\<open>bin_real\<close> raise the error of their
  \<^verbatim>\<open>assert type(...) is int\<close> (an \<^verbatim>\<open>AssertionError\<close>, the code's form of the
  invalid-factor error), and the DataCube is exactly as it was before the call.
\<close>

theorem non_integer_factor_rejected:
  "1 < r \<Longrightarrow> bin_diffraction dc (PyFloat r) = Inl (AssertionError, dc) \<and>
     bin_real dc (PyFloat r) = Inl (AssertionError, dc)"
  by (simp add: bin_diffraction_def bin_real_def)

theorem non_integer_factor_rejected_witness:
  "(1::real) < 5 / 2 \<and>
   bin_diffraction (example_cube [1, 1, 2, 2] [1, 2, 3, 4]) (PyFloat (5 / 2))
     = Inl (AssertionError, example_cube [1, 1, 2, 2] [1, 2, 3, 4]) \<and>
   bin_real (example_cube [1, 1, 2, 2] [1, 2, 3, 4]) (PyFloat (5 / 2))
     = Inl (AssertionError, example_cube [1, 1, 2, 2] [1, 2, 3, 4])"
  using non_integer_factor_rejected [of "5 / 2" "example_cube [1, 1, 2, 2] [1, 2, 3, 4]"]
  by simp

text \<open>
  C10. For every tree that is not absent and every target key, \<^verbatim>\<open>search_hs_tree\<close>
  returns what the specification's search returns: the children are visited in their
  natural order, a subtree is searched before the siblings after it, the first leaf
  whose key is the target gives \<open>(True, value)\<close>, and a tree with no such leaf gives
  \<open>(False, -1)\<close>.
\<close>

theorem search_hs_tree_depth_first:
  "search_hs_tree key (Some t) = spec_search key (Some t)"
  by (simp add: spec_search_def search_hs_keys_find)

theorem search_hs_tree_depth_first_witness:
  "search_hs_tree ''k''
       (Some [(''a'', Leaf (PyInt 0)), (''b'', Tree [(''k'', Leaf (PyInt 1))]),
              (''k'', Leaf (PyInt 2))])
     = (True, PyInt 1) \<and>
   search_hs_tree ''z''
       (Some [(''a'', Leaf (PyInt 0)), (''b'', Tree [(''k'', Leaf (PyInt 1))]),
              (''k'', Leaf (PyInt 2))])
     = (False, PyInt (- 1))"
  using search_hs_tree_depth_first
      [of "''k''" "[(''a'', Leaf (PyInt 0)), (''b'', Tree [(''k'', Leaf (PyInt 1))]),
                    (''k'', Leaf (PyInt 2))]"]
    search_hs_tree_depth_first
      [of "''z''" "[(''a'', Leaf (PyInt 0)), (''b'', Tree [(''k'', Leaf (PyInt 1))]),
                    (''k'', Leaf (PyInt 2))]"]
  by (simp add: spec_search_def)

end
